theory Spec2Isabelle
  imports
    Main
    "HOL-Library.Word"
    "HOL-Library.Char_ord"
    "HOL-Library.List_Lexorder"
    "HOL-Library.Multiset"
begin

unbundle bit_operations_syntax

section \<open>Data model\<close>

subsection \<open>Strings and byte slices\<close>

text \<open>
  A Go \<open>string\<close> is a sequence of bytes and is modelled as \<open>string\<close> (a list of 8-bit
  characters); a Go \<open>[]byte\<close> is a list of 8-bit words. The conversions \<open>[]byte(s)\<close> and
  \<open>string(b)\<close> copy the bytes. Both types are ordered byte-lexicographically, which is
  the order of \<open>sort.Strings\<close>, of \<open>bytes.Compare\<close> and of the keys of a bolt bucket.
\<close>

type_synonym byte = "8 word"
type_synonym bytes = "byte list"

definition bytes_of :: "string \<Rightarrow> bytes" where
  "bytes_of s = map of_char s"

definition string_of :: "bytes \<Rightarrow> string" where
  "string_of b = map (\<lambda>w. char_of (unat w)) b"

subsection \<open>Errors\<close>

text \<open>
  \<open>ErrKeyNotFound\<close> and \<open>ErrEmptyKeyList\<close> are the two error values of database.go.
  The others are the errors of the libraries the package calls: bolt's \<open>Put\<close>
  (\<open>ErrKeyRequired\<close>, \<open>ErrKeyTooLarge\<close>, \<open>ErrValueTooLarge\<close>), \<open>io.ReadFull\<close>
  (\<open>EOF\<close>, \<open>ErrUnexpectedEOF\<close>), \<open>encoding/base64\<close> (\<open>CorruptInputError\<close>), \<open>encoding/json\<close>
  (\<open>MarshalError\<close>, \<open>UnmarshalError\<close>) and securecookie (\<open>EncodeError\<close>).
\<close>

datatype error =
    ErrKeyNotFound
  | ErrEmptyKeyList
  | ErrKeyRequired
  | ErrKeyTooLarge
  | ErrValueTooLarge
  | EOF
  | ErrUnexpectedEOF
  | CorruptInputError
  | MarshalError
  | UnmarshalError
  | EncodeError

subsection \<open>The user record (BaseUser)\<close>

record BaseUser =
  Username :: string
  RequestId :: int
  PrimaryEmail :: string
  SaltedPassword :: string
  Salt :: string
  CookieBlock :: string

text \<open>The zero value \<open>BaseUser{}\<close>.\<close>

definition BaseUser_zero :: BaseUser where
  "BaseUser_zero =
     \<lparr>Username = [], RequestId = 0, PrimaryEmail = [], SaltedPassword = [], Salt = [],
      CookieBlock = []\<rparr>"

subsection \<open>Cookies and the HTTP response\<close>

text \<open>
  \<open>http.Cookie\<close> with the fields the package sets; \<open>Expires = None\<close> is the zero time and
  \<open>MaxAge = 0\<close> the zero value. A response is the list of cookies set on it (in order),
  its status, its plain-text body and its redirect location.
\<close>

record Cookie =
  Name :: string
  Value :: string
  Path :: string
  HttpOnly :: bool
  MaxAge :: int
  Expires :: "int option"

record Response =
  set_cookies :: "Cookie list"
  status :: nat
  body :: string
  location :: string

definition new_response :: Response where
  "new_response = \<lparr>set_cookies = [], status = 200, body = [], location = []\<rparr>"

definition SetCookie :: "Response \<Rightarrow> Cookie \<Rightarrow> Response" where
  "SetCookie response cookie = response\<lparr>set_cookies := set_cookies response @ [cookie]\<rparr>"

text \<open>\<open>ctx.String(code, text)\<close> and \<open>ctx.Redirect(code, location)\<close> of gin.\<close>

definition ctx_String :: "nat \<Rightarrow> string \<Rightarrow> Response \<Rightarrow> Response" where
  "ctx_String code txt response = response\<lparr>status := code, body := txt\<rparr>"

definition ctx_Redirect :: "nat \<Rightarrow> string \<Rightarrow> Response \<Rightarrow> Response" where
  "ctx_Redirect code loc response = response\<lparr>status := code, location := loc\<rparr>"

subsection \<open>The secure cookie codec\<close>

text \<open>\<open>securecookie.New(hashKey, blockKey)\<close> keeps the two keys.\<close>

record SecureCookie =
  sc_hashKey :: bytes
  sc_blockKey :: bytes

definition securecookie_New :: "bytes \<Rightarrow> bytes \<Rightarrow> SecureCookie" where
  "securecookie_New hk bk = \<lparr>sc_hashKey = hk, sc_blockKey = bk\<rparr>"

subsection \<open>Libraries and process-wide state the package depends on\<close>

text \<open>
  The package calls SHA-256, the standard base64 encoding, the JSON codec of
  \<open>BaseUser\<close>, the encoder of a secure cookie and \<open>Time.AddDate\<close>; their code is not part
  of the package, so the model takes them as parameters, together with the process-wide
  \<open>CookieHashKey\<close>. The value encoded into the session cookie is the pair of the
  \<open>name\<close> and \<open>reqid\<close> entries of the Go map.
\<close>

record environment =
  sha256_Sum :: "bytes \<Rightarrow> bytes"
  base64_EncodeToString :: "bytes \<Rightarrow> string"
  base64_DecodeString :: "string \<Rightarrow> error + bytes"
  json_Marshal :: "BaseUser \<Rightarrow> error + bytes"
  json_Unmarshal :: "bytes \<Rightarrow> error + BaseUser"
  securecookie_Encode :: "SecureCookie \<Rightarrow> string \<Rightarrow> string \<times> int \<Rightarrow> error + string"
  time_AddDate :: "int \<Rightarrow> int \<Rightarrow> int \<Rightarrow> int \<Rightarrow> int"
  CookieHashKey :: bytes

subsection \<open>The entropy source\<close>

text \<open>
  \<open>rand.Reader\<close> is modelled by the bytes it will still deliver. \<open>io.ReadFull\<close> takes
  \<open>n\<close> of them; when fewer are left it fails, with \<open>EOF\<close> if none is left and with
  \<open>ErrUnexpectedEOF\<close> otherwise. \<open>securecookie.GenerateRandomKey\<close> reads the same source
  and returns \<open>nil\<close> (the empty slice) on failure.
\<close>

type_synonym entropy = bytes

definition io_ReadFull :: "nat \<Rightarrow> entropy \<Rightarrow> (error + bytes) \<times> entropy" where
  "io_ReadFull n rnd =
     (if n \<le> length rnd then (Inr (take n rnd), drop n rnd)
      else (Inl (if rnd = [] then EOF else ErrUnexpectedEOF), []))"

definition GenerateRandomKey :: "nat \<Rightarrow> entropy \<Rightarrow> bytes \<times> entropy" where
  "GenerateRandomKey n rnd =
     (case io_ReadFull n rnd of
        (Inl e, rnd') \<Rightarrow> ([], rnd')
      | (Inr k, rnd') \<Rightarrow> (k, rnd'))"

section \<open>The storage engine\<close>

text \<open>
  The state of a keyspace is the content of its bolt bucket: the entries in ascending
  key order, one per key. A handle \<open>BoltKeyspace\<close> is only made by
  \<open>GetOrCreateKeyspace\<close>, which creates the bucket, so the bucket of a handle exists.
  The state also logs the transactions begun on the database (\<open>db.View\<close> begins a
  read-only one, \<open>db.Update\<close> a read-write one).
\<close>

type_synonym bucket = "(bytes \<times> bytes) list"

datatype tx_mode = ReadOnly | ReadWrite

record bolt_db =
  entries :: bucket
  tx_log :: "tx_mode list"

definition well_formed :: "bucket \<Rightarrow> bool" where
  "well_formed b = sorted_wrt (<) (map fst b)"

definition begin_tx :: "tx_mode \<Rightarrow> bolt_db \<Rightarrow> bolt_db" where
  "begin_tx m db = db\<lparr>tx_log := tx_log db @ [m]\<rparr>"

text \<open>\<open>Bucket.Get\<close>: the value of a key, \<open>nil\<close> (None) when the key does not exist.\<close>

definition bucket_Get :: "bytes \<Rightarrow> bucket \<Rightarrow> bytes option" where
  "bucket_Get k b = map_of b k"

text \<open>
  \<open>Bucket.Put\<close>: rejects a blank key, a key above \<open>MaxKeySize\<close> and a value above
  \<open>MaxValueSize\<close>; otherwise sets the value of the key, keeping the key order.
\<close>

definition MaxKeySize :: nat where
  "MaxKeySize = 32768"

definition MaxValueSize :: nat where
  "MaxValueSize = 2 ^ 31 - 2"

fun bucket_store :: "bytes \<Rightarrow> bytes \<Rightarrow> bucket \<Rightarrow> bucket" where
  "bucket_store k v [] = [(k, v)]"
| "bucket_store k v ((k', v') # es) =
     (if k < k' then (k, v) # (k', v') # es
      else if k = k' then (k, v) # es
      else (k', v') # bucket_store k v es)"

definition bucket_Put :: "bytes \<Rightarrow> bytes \<Rightarrow> bucket \<Rightarrow> error + bucket" where
  "bucket_Put k v b =
     (if length k = 0 then Inl ErrKeyRequired
      else if length k > MaxKeySize then Inl ErrKeyTooLarge
      else if length v > MaxValueSize then Inl ErrValueTooLarge
      else Inr (bucket_store k v b))"

text \<open>
  \<open>Cursor.Seek\<close> moves to the given key, or to the next key when it does not exist; the
  cursor is the list of entries from its position on, empty when no key follows, and
  \<open>Cursor.Next\<close> is the tail.
\<close>

definition cursor_Seek :: "bytes \<Rightarrow> bucket \<Rightarrow> bucket" where
  "cursor_Seek k b = dropWhile (\<lambda>e. fst e < k) b"

section \<open>BoltKeyspace\<close>

text \<open>
  The loop of \<open>List\<close> over the cursor: it stops when the cursor is exhausted or the key
  is beyond \<open>last\<close>, and calls the callback on the keys of the lookup table. The result
  is the list of the calls made, in order.
\<close>

fun scan :: "(string \<rightharpoonup> bool) \<Rightarrow> bytes \<Rightarrow> bucket \<Rightarrow> (bytes \<times> bytes) list" where
  "scan lookup lst [] = []"
| "scan lookup lst ((k, v) # rest) =
     (if k \<le> lst
      then (if lookup (string_of k) \<noteq> None then (k, v) # scan lookup lst rest
            else scan lookup lst rest)
      else [])"

text \<open>
  \<open>List\<close> returns its error, and the model returns with it the caller's slice as the
  call leaves it and the calls made to the callback.
\<close>

definition BoltKeyspace_List ::
  "string list \<Rightarrow> bolt_db \<Rightarrow> (error option \<times> string list \<times> (bytes \<times> bytes) list) \<times> bolt_db" where
  "BoltKeyspace_List keys db =
     (if length keys = 0 then ((Some ErrEmptyKeyList, keys, []), db)
      else
        let keys' = sort keys;
            lookup = fold (\<lambda>k m. m(k \<mapsto> True)) keys' Map.empty;
            db' = begin_tx ReadOnly db;
            lst = bytes_of (keys' ! (length keys' - 1));
            calls = scan lookup lst (cursor_Seek (bytes_of (keys' ! 0)) (entries db'))
        in ((None, keys', calls), db'))"

definition BoltKeyspace_Insert :: "string \<Rightarrow> bytes \<Rightarrow> bolt_db \<Rightarrow> error option \<times> bolt_db" where
  "BoltKeyspace_Insert key val db =
     (let db' = begin_tx ReadWrite db
      in case bucket_Put (bytes_of key) val (entries db') of
           Inl e \<Rightarrow> (Some e, db')
         | Inr b \<Rightarrow> (None, db'\<lparr>entries := b\<rparr>))"

definition BoltKeyspace_Get ::
  "string \<Rightarrow> bolt_db \<Rightarrow> (bytes option \<times> error option) \<times> bolt_db" where
  "BoltKeyspace_Get key db =
     (let db' = begin_tx ReadOnly db;
          val = bucket_Get (bytes_of key) (entries db')
      in if val = None then ((val, Some ErrKeyNotFound), db') else ((val, None), db'))"

definition BoltKeyspace_Update :: "string \<Rightarrow> bytes \<Rightarrow> bolt_db \<Rightarrow> error option \<times> bolt_db" where
  "BoltKeyspace_Update key val db = BoltKeyspace_Insert key val db"


section \<open>Authentication (utils.go)\<close>

definition SaltSize :: nat where
  "SaltSize = 16"

definition GenerateSalt ::
  "environment \<Rightarrow> bytes \<Rightarrow> entropy \<Rightarrow> (error + bytes \<times> bytes) \<times> entropy" where
  "GenerateSalt X secret rnd =
     (case io_ReadFull SaltSize rnd of
        (Inl err, rnd') \<Rightarrow> (Inl err, rnd')
      | (Inr buf, rnd') \<Rightarrow> (Inr (buf, sha256_Sum X (buf @ secret)), rnd'))"

subsection \<open>Constant-time comparison\<close>

text \<open>
  The three functions of \<open>crypto/subtle\<close> that \<open>SecureCompare\<close> calls, on machine words:
  \<open>ConstantTimeByteEq\<close> is \<open>int((uint32(x^y) - 1) >> 31)\<close>, \<open>ConstantTimeEq\<close> is
  \<open>int((uint64(uint32(x^y)) - 1) >> 63)\<close>, and \<open>ConstantTimeCompare\<close> returns 0 on slices
  of different lengths and otherwise folds \<open>v |= x[i] ^ y[i]\<close> over the bytes.
\<close>

definition ConstantTimeByteEq :: "8 word \<Rightarrow> 8 word \<Rightarrow> int" where
  "ConstantTimeByteEq x y = uint (drop_bit 31 ((ucast (x XOR y) :: 32 word) - 1))"

definition ConstantTimeEq :: "32 word \<Rightarrow> 32 word \<Rightarrow> int" where
  "ConstantTimeEq x y = uint (drop_bit 63 ((ucast (x XOR y) :: 64 word) - 1))"

fun xor_fold :: "8 word \<Rightarrow> bytes \<Rightarrow> bytes \<Rightarrow> 8 word" where
  "xor_fold v (a # x) (b # y) = xor_fold (v OR (a XOR b)) x y"
| "xor_fold v _ _ = v"

definition ConstantTimeCompare :: "bytes \<Rightarrow> bytes \<Rightarrow> int" where
  "ConstantTimeCompare x y =
     (if length x \<noteq> length y then 0 else ConstantTimeByteEq (xor_fold 0 x y) 0)"

text \<open>\<open>int32(len(given))\<close> keeps the low 32 bits of the length.\<close>

definition SecureCompare :: "bytes \<Rightarrow> bytes \<Rightarrow> bool" where
  "SecureCompare given actual =
     (if ConstantTimeEq (word_of_nat (length given)) (word_of_nat (length actual)) = 1
      then ConstantTimeCompare given actual = 1
      else (ConstantTimeCompare actual actual = 1 \<and> False))"

subsection \<open>Saving a user, the default user, authenticate\<close>

definition SaveUser :: "environment \<Rightarrow> BaseUser \<Rightarrow> bolt_db \<Rightarrow> error option \<times> bolt_db" where
  "SaveUser X user ks =
     (case json_Marshal X user of
        Inl err \<Rightarrow> (Some err, ks)
      | Inr newuser \<Rightarrow>
          (case BoltKeyspace_Update (Username user) newuser ks of
             (Some err, ks') \<Rightarrow> (Some err, ks')
           | (None, ks') \<Rightarrow> (None, ks')))"


definition authenticate :: "environment \<Rightarrow> BaseUser \<Rightarrow> string \<Rightarrow> bool" where
  "authenticate X user password =
     (case base64_DecodeString X (SaltedPassword user) of
        Inl err \<Rightarrow> False
      | Inr combined \<Rightarrow>
          (case base64_DecodeString X (Salt user) of
             Inl err \<Rightarrow> False
           | Inr salt \<Rightarrow>
               SecureCompare (sha256_Sum X (salt @ bytes_of password)) combined))"

section \<open>Sessions and the login handler\<close>

definition setSession ::
  "environment \<Rightarrow> int \<Rightarrow> BaseUser \<Rightarrow> SecureCookie \<Rightarrow> Response \<Rightarrow> Response" where
  "setSession X now user sc response =
     (let val = (Username user, RequestId user);
          response1 =
            (case securecookie_Encode X sc ''session'' val of
               Inr encoded \<Rightarrow>
                 SetCookie response
                   \<lparr>Name = ''session'', Value = encoded, Path = ''/'', HttpOnly = True,
                    MaxAge = 0, Expires = Some (time_AddDate X now 0 1 0)\<rparr>
             | Inl err \<Rightarrow> response);
          loggedin =
            \<lparr>Name = ''part-of-the-club'', Value = ''true'', Path = ''/'', HttpOnly = False,
             MaxAge = 0, Expires = None\<rparr>
      in SetCookie response1 loggedin)"

definition clearSession :: "Response \<Rightarrow> Response" where
  "clearSession response =
     (let cookie =
            \<lparr>Name = ''session'', Value = '''', Path = ''/'', HttpOnly = True,
             MaxAge = - 1, Expires = None\<rparr>;
          response1 = SetCookie response cookie;
          loggedin =
            \<lparr>Name = ''part-of-the-club'', Value = ''false'', Path = ''/'', HttpOnly = False,
             MaxAge = - 1, Expires = None\<rparr>
      in SetCookie response1 loggedin)"

definition getSecureCookie ::
  "environment \<Rightarrow> BaseUser \<Rightarrow> bolt_db \<Rightarrow> entropy \<Rightarrow> (error + SecureCookie) \<times> bolt_db \<times> entropy" where
  "getSecureCookie X user users rnd =
     (if CookieBlock user = ''''
      then
        let (blockKey, rnd1) = GenerateRandomKey 32 rnd;
            user1 = user\<lparr>CookieBlock := base64_EncodeToString X blockKey\<rparr>
        in case SaveUser X user1 users of
             (Some err, users1) \<Rightarrow> (Inl err, users1, rnd1)
           | (None, users1) \<Rightarrow> (Inr (securecookie_New (CookieHashKey X) blockKey), users1, rnd1)
      else
        case base64_DecodeString X (CookieBlock user) of
          Inl err \<Rightarrow> (Inl err, users, rnd)
        | Inr blockKey \<Rightarrow> (Inr (securecookie_New (CookieHashKey X) blockKey), users, rnd))"

text \<open>
  \<open>Login\<close> on the form values \<open>username\<close> and \<open>password\<close> (empty when the field is
  missing), writing to a fresh response.
\<close>

definition Login ::
  "environment \<Rightarrow> int \<Rightarrow> string \<Rightarrow> string \<Rightarrow> bolt_db \<Rightarrow> entropy \<Rightarrow> Response \<times> bolt_db \<times> entropy" where
  "Login X now username password users rnd =
     (if username \<noteq> '''' \<and> password \<noteq> ''''
      then
        case BoltKeyspace_Get username users of
          ((bs, Some err), users1) \<Rightarrow>
            (ctx_String 500 ''Error retreiving user'' new_response, users1, rnd)
        | ((None, None), users1) \<Rightarrow>
            (ctx_String 401 ''Invalid username or password'' new_response, users1, rnd)
        | ((Some bs, None), users1) \<Rightarrow>
            (case json_Unmarshal X bs of
               Inl err \<Rightarrow> (ctx_String 500 ''Error retreiving user'' new_response, users1, rnd)
             | Inr user \<Rightarrow>
                 if \<not> authenticate X user password
                 then (ctx_String 401 ''Invalid username or password'' new_response, users1, rnd)
                 else
                   (case getSecureCookie X user users1 rnd of
                      (Inl err, users2, rnd2) \<Rightarrow>
                        (ctx_String 500 ''Internal Server Error'' new_response, users2, rnd2)
                    | (Inr sc, users2, rnd2) \<Rightarrow>
                        (ctx_Redirect 302 ''/'' (setSession X now user sc new_response),
                         users2, rnd2)))
      else (ctx_String 401 ''Invalid username or password'' new_response, users, rnd))"

definition Logout :: "Response" where
  "Logout = ctx_Redirect 302 ''/'' (clearSession new_response)"

section \<open>Example states\<close>

text \<open>A keyspace with three entries, used to run the operations on concrete input.\<close>

definition example_db :: bolt_db where
  "example_db =
     \<lparr>entries = [(bytes_of ''a'', [1]), (bytes_of ''b'', [2]), (bytes_of ''c'', [3])],
      tx_log = []\<rparr>"

text \<open>
  Stand-ins for the libraries, to run the model: a reversal for the digest, a base64
  codec that copies the bytes and rejects \<open>!\<close> (which is outside the base64 alphabet), a
  JSON codec that knows the record of \<open>alice\<close>, and a cookie encoder that fails, as AES
  does, on a block key that is not 16, 24 or 32 bytes long.
\<close>

definition alice :: BaseUser where
  "alice =
     \<lparr>Username = ''alice'', RequestId = 7, PrimaryEmail = ''alice@example.com'',
      SaltedPassword = ''ss@ptlas'', Salt = ''salt'', CookieBlock = ''abc''\<rparr>"

definition example_env :: environment where
  "example_env =
     \<lparr>sha256_Sum = rev,
      base64_EncodeToString = string_of,
      base64_DecodeString =
        (\<lambda>s. if CHR ''!'' \<in> set s then Inl CorruptInputError else Inr (bytes_of s)),
      json_Marshal = (\<lambda>u. Inr (bytes_of (Username u @ '':'' @ CookieBlock u))),
      json_Unmarshal =
        (\<lambda>bs. if bs = bytes_of ''alice:abc'' then Inr alice else Inl UnmarshalError),
      securecookie_Encode =
        (\<lambda>sc name v. if length (sc_blockKey sc) \<in> {16, 24, 32}
                      then Inr (name @ ''='' @ fst v) else Inl EncodeError),
      time_AddDate = (\<lambda>t y m d. t + 2592000 * m),
      CookieHashKey = replicate 64 7\<rparr>"

definition users_db :: bolt_db where
  "users_db = \<lparr>entries = [(bytes_of ''alice'', bytes_of ''alice:abc'')], tx_log = []\<rparr>"

definition rnd17 :: entropy where
  "rnd17 = [1, 2, 3, 4, 5, 6, 7, 8, 9, 10, 11, 12, 13, 14, 15, 16, 17]"

definition salt16 :: bytes where
  "salt16 = [1, 2, 3, 4, 5, 6, 7, 8, 9, 10, 11, 12, 13, 14, 15, 16]"

definition bob :: BaseUser where
  "bob =
     BaseUser_zero\<lparr>Username := ''bob'',
       SaltedPassword := base64_EncodeToString example_env (rev (salt16 @ bytes_of ''pw'')),
       Salt := base64_EncodeToString example_env salt16\<rparr>"







section \<open>Constant-time comparison is equality\<close>

lemma xor_zero_iff: "(x XOR y = 0) = (x = (y::'a::len word))"
  by (metis bit.xor_self xor.assoc xor.right_neutral)

lemma sub1_hi_8_32:
  fixes z :: "8 word"
  shows "drop_bit 31 ((ucast z :: 32 word) - 1) = (if z = 0 then 1 else 0)"
proof (cases "z = 0")
  case True
  then show ?thesis by simp
next
  case False
  let ?w = "ucast z :: 32 word"
  have b: "unat z < 256" using unsigned_less [of z, where ?'a = nat] by simp
  then have u: "unat ?w = unat z" by (simp add: unsigned_ucast_eq take_bit_nat_eq_self)
  have nz: "?w \<noteq> 0" using False u by (metis unat_eq_zero)
  have "unat (?w - 1) < 2 ^ 31" using nz u b by (simp add: unat_minus_one)
  then have d: "unat (?w - 1) div 2 ^ 31 = 0" by simp
  have "unat (drop_bit 31 (?w - 1)) = drop_bit 31 (unat (?w - 1))"
    by (rule unat_drop_bit_eq)
  also have "\<dots> = unat (?w - 1) div 2 ^ 31" by (rule drop_bit_eq_div)
  finally have "unat (drop_bit 31 (?w - 1)) = 0" using d by simp
  then have "drop_bit 31 (?w - 1) = 0" by (simp only: unat_eq_zero)
  with False show ?thesis by simp
qed

lemma sub1_hi_32_64:
  fixes z :: "32 word"
  shows "drop_bit 63 ((ucast z :: 64 word) - 1) = (if z = 0 then 1 else 0)"
proof (cases "z = 0")
  case True
  then show ?thesis by simp
next
  case False
  let ?w = "ucast z :: 64 word"
  have b: "unat z < 2 ^ 32" using unsigned_less [of z, where ?'a = nat] by simp
  then have u: "unat ?w = unat z" by (simp add: unsigned_ucast_eq take_bit_nat_eq_self)
  have nz: "?w \<noteq> 0" using False u by (metis unat_eq_zero)
  have "unat (?w - 1) < 2 ^ 63" using nz u b by (simp add: unat_minus_one)
  then have d: "unat (?w - 1) div 2 ^ 63 = 0" by simp
  have "unat (drop_bit 63 (?w - 1)) = drop_bit 63 (unat (?w - 1))"
    by (rule unat_drop_bit_eq)
  also have "\<dots> = unat (?w - 1) div 2 ^ 63" by (rule drop_bit_eq_div)
  finally have "unat (drop_bit 63 (?w - 1)) = 0" using d by simp
  then have "drop_bit 63 (?w - 1) = 0" by (simp only: unat_eq_zero)
  with False show ?thesis by simp
qed

lemma ConstantTimeByteEq_eq: "ConstantTimeByteEq x y = (if x = y then 1 else 0)"
  by (simp add: ConstantTimeByteEq_def sub1_hi_8_32 xor_zero_iff)

lemma ConstantTimeEq_eq: "ConstantTimeEq x y = (if x = y then 1 else 0)"
  by (simp add: ConstantTimeEq_def sub1_hi_32_64 xor_zero_iff)

lemma xor_fold_zero: "length x = length y \<Longrightarrow> (xor_fold v x y = 0) = (v = 0 \<and> x = y)"
proof (induction v x y rule: xor_fold.induct)
  case (1 v a x b y)
  then show ?case by (auto simp: or_eq_0_iff xor_zero_iff)
qed auto

lemma ConstantTimeCompare_eq: "ConstantTimeCompare x y = (if x = y then 1 else 0)"
  by (auto simp: ConstantTimeCompare_def ConstantTimeByteEq_eq xor_fold_zero)

text \<open>
  Claim C4. For all byte sequences \<open>x\<close> and \<open>y\<close>, \<open>SecureCompare x y\<close> is true if and only
  if \<open>x\<close> and \<open>y\<close> are byte-equal: it is true on \<open>x\<close> and \<open>x\<close> and false whenever the two
  differ, also when their lengths differ (and also when the lengths agree in their low
  32 bits only).
\<close>

theorem SecureCompare_iff_equal: "SecureCompare x y = (x = y)"
  by (auto simp: SecureCompare_def ConstantTimeEq_eq ConstantTimeCompare_eq)

section \<open>Strings, byte slices and their order\<close>

lemma unat_of_char: "unat (of_char c :: 8 word) = of_char c"
proof -
  have "(of_char c :: 8 word) = word_of_nat (of_char c)"
    by (simp add: of_nat_of_char)
  then have "unat (of_char c :: 8 word) = (of_char c :: nat) mod 2 ^ 8"
    by (simp only: unat_of_nat) simp
  then show ?thesis by simp
qed

lemma char_of_unat_of_char: "char_of (unat (of_char c :: 8 word)) = c"
  by (simp add: unat_of_char)

lemma of_char_char_of_unat: "of_char (char_of (unat w)) = (w :: 8 word)"
proof -
  have b: "unat w < 256" using unsigned_less [of w, where ?'a = nat] by simp
  have "(of_char (char_of (unat w)) :: 8 word) = word_of_nat (of_char (char_of (unat w)))"
    by (simp only: of_nat_of_char)
  also have "\<dots> = word_of_nat (unat w mod 256)" by (simp only: of_char_of)
  also have "\<dots> = word_of_nat (unat w)" using b by simp
  finally show ?thesis by simp
qed

lemma string_of_bytes_of: "string_of (bytes_of s) = s"
  by (induction s) (simp_all add: string_of_def bytes_of_def unat_of_char)

lemma bytes_of_string_of: "bytes_of (string_of b) = b"
  by (induction b) (simp_all add: string_of_def bytes_of_def of_char_char_of_unat)

lemma of_char_word_eq_iff: "((of_char c :: 8 word) = of_char d) = (c = d)"
  by (metis char_of_unat_of_char)

lemma of_char_less_iff: "((of_char c :: 8 word) < of_char d) = (c < d)"
  by (simp add: word_less_nat_alt unat_of_char less_char_def)

lemma bytes_of_less_iff: "(bytes_of s < bytes_of t) = (s < t)"
proof (induction s arbitrary: t)
  case Nil
  then show ?case by (cases t) (simp_all add: bytes_of_def)
next
  case (Cons c s)
  show ?case
  proof (cases t)
    case Nil
    then show ?thesis by (simp add: bytes_of_def)
  next
    case (Cons d t')
    have "(bytes_of s < bytes_of t') = (s < t')" by (rule Cons.IH)
    then show ?thesis using Cons
      by (simp add: bytes_of_def of_char_less_iff of_char_word_eq_iff)
  qed
qed

lemma bytes_of_eq_iff: "(bytes_of s = bytes_of t) = (s = t)"
  by (metis string_of_bytes_of)

lemma bytes_of_le_iff: "(bytes_of s \<le> bytes_of t) = (s \<le> t)"
  by (simp add: le_less bytes_of_less_iff bytes_of_eq_iff)

lemma dom_lookup: "dom (fold (\<lambda>k m. m(k \<mapsto> True)) ks m) = dom m \<union> set ks"
  by (induction ks arbitrary: m) auto

lemma lookup_iff: "(fold (\<lambda>k m. m(k \<mapsto> True)) ks Map.empty s \<noteq> None) = (s \<in> set ks)"
  using dom_lookup [of ks Map.empty] by (auto simp: dom_def)

lemma filter_dropWhile_skip:
  "(\<And>e. e \<in> set b \<Longrightarrow> Q e \<Longrightarrow> \<not> P e) \<Longrightarrow> filter P (dropWhile Q b) = filter P b"
  by (induction b) auto

lemma scan_filter:
  assumes "sorted (map fst b)"
    and "\<And>e. e \<in> set b \<Longrightarrow> lookup (string_of (fst e)) \<noteq> None \<Longrightarrow> fst e \<le> lst"
  shows "scan lookup lst b = filter (\<lambda>e. lookup (string_of (fst e)) \<noteq> None) b"
  using assms
proof (induction b)
  case Nil
  then show ?case by simp
next
  case (Cons e b)
  obtain k v where e: "e = (k, v)" by (cases e)
  have s: "sorted (map fst b)" using Cons.prems(1) by simp
  have ih: "scan lookup lst b = filter (\<lambda>e. lookup (string_of (fst e)) \<noteq> None) b"
    using Cons.IH [OF s] Cons.prems(2) by simp
  show ?case
  proof (cases "k \<le> lst")
    case True
    then show ?thesis using ih e by simp
  next
    case False
    have "\<And>e'. e' \<in> set (e # b) \<Longrightarrow> lookup (string_of (fst e')) = None"
    proof -
      fix e' assume m: "e' \<in> set (e # b)"
      have "k \<le> fst e'" using m Cons.prems(1) e by auto
      then have "\<not> fst e' \<le> lst" using False by auto
      then show "lookup (string_of (fst e')) = None" using Cons.prems(2) [OF m] by blast
    qed
    then have "filter (\<lambda>e. lookup (string_of (fst e)) \<noteq> None) (e # b) = []"
      by (auto simp: filter_empty_conv)
    then show ?thesis using False e by simp
  qed
qed

lemma sorted_keys_dropWhile:
  "sorted (map fst b) \<Longrightarrow> sorted (map fst (dropWhile Q b))"
  by (induction b) auto

lemma sorted_nth_bounds:
  assumes "sorted xs" and "x \<in> set xs"
  shows "xs ! 0 \<le> x \<and> x \<le> xs ! (length xs - 1)"
proof -
  obtain i where i: "i < length xs" "xs ! i = x" using assms(2) by (auto simp: in_set_conv_nth)
  have "xs ! 0 \<le> xs ! i" using assms(1) i(1) by (simp add: sorted_nth_mono)
  moreover have "xs ! i \<le> xs ! (length xs - 1)" using assms(1) i(1)
    by (intro sorted_nth_mono) auto
  ultimately show ?thesis using i(2) by simp
qed

lemma List_calls_filter:
  assumes "keys \<noteq> []" and "well_formed (entries db)"
  shows "BoltKeyspace_List keys db =
           ((None, sort keys, filter (\<lambda>e. string_of (fst e) \<in> set keys) (entries db)),
            begin_tx ReadOnly db)"
proof -
  let ?ks = "sort keys"
  let ?lookup = "fold (\<lambda>k m. m(k \<mapsto> True)) ?ks Map.empty"
  let ?P = "\<lambda>e::bytes \<times> bytes. ?lookup (string_of (fst e)) \<noteq> None"
  let ?lo = "bytes_of (?ks ! 0)"
  let ?hi = "bytes_of (?ks ! (length ?ks - 1))"
  let ?b = "entries db"
  have P: "?P = (\<lambda>e. string_of (fst e) \<in> set keys)"
    by (rule ext) (simp only: lookup_iff set_sort)
  have srt: "sorted (map fst ?b)"
    using assms(2) by (simp add: well_formed_def strict_sorted_imp_sorted)
  have bounds: "\<And>e. ?P e \<Longrightarrow> ?lo \<le> fst e \<and> fst e \<le> ?hi"
  proof -
    fix e :: "bytes \<times> bytes" assume "?P e"
    then have m: "string_of (fst e) \<in> set ?ks" by (simp only: lookup_iff)
    have "?ks ! 0 \<le> string_of (fst e) \<and> string_of (fst e) \<le> ?ks ! (length ?ks - 1)"
      by (rule sorted_nth_bounds [OF _ m]) simp
    then have "?lo \<le> bytes_of (string_of (fst e)) \<and> bytes_of (string_of (fst e)) \<le> ?hi"
      by (simp only: bytes_of_le_iff)
    then show "?lo \<le> fst e \<and> fst e \<le> ?hi" by (simp only: bytes_of_string_of)
  qed
  have srt2: "sorted (map fst (cursor_Seek ?lo ?b))"
    unfolding cursor_Seek_def using srt by (rule sorted_keys_dropWhile)
  have "scan ?lookup ?hi (cursor_Seek ?lo ?b) = filter ?P (cursor_Seek ?lo ?b)"
    by (rule scan_filter [OF srt2]) (use bounds in blast)
  also have "\<dots> = filter ?P ?b"
    unfolding cursor_Seek_def
    by (rule filter_dropWhile_skip) (use bounds in force)
  finally have "scan ?lookup ?hi (cursor_Seek ?lo ?b) = filter (\<lambda>e. string_of (fst e) \<in> set keys) ?b"
    by (simp only: P)
  then show ?thesis using assms(1)
    by (simp add: BoltKeyspace_List_def Let_def begin_tx_def)
qed

section \<open>List\<close>

text \<open>
  Claim C3. \<open>List\<close> called with an empty key list returns \<open>ErrEmptyKeyList\<close>, calls the
  callback zero times, and leaves the state as it was: the bucket is unchanged and no
  transaction has been begun.
\<close>

theorem List_empty_key_list:
  "BoltKeyspace_List [] db = ((Some ErrEmptyKeyList, [], []), db)"
  by (simp add: BoltKeyspace_List_def)

text \<open>
  Claim C9, amended. \<open>List\<close> sorts its caller's slice in place: for every non-empty key
  list, the slice the call leaves behind is the ascending lexicographic permutation of
  the slice it was given. The slice is left as it was exactly when it was already in
  ascending order, so the claim's addition that the input is never left unchanged does
  not hold: the last theorem of this claim runs \<open>List\<close> on a single key and on two keys
  in ascending order, and both slices come back as they were.
\<close>

theorem List_sorts_callers_keys:
  assumes "keys \<noteq> []"
  shows "case BoltKeyspace_List keys db of
           ((err, keys', calls), db') \<Rightarrow>
             keys' = sort keys \<and> sorted keys' \<and> mset keys' = mset keys
             \<and> (keys' = keys) = sorted keys"
proof -
  have "(sort keys = keys) = sorted keys"
    by (metis sorted_sort sorted_sort_id)
  then show ?thesis
    using assms by (simp add: BoltKeyspace_List_def Let_def)
qed

theorem List_sorts_callers_keys_witness:
  "[''b'', ''a''] \<noteq> ([] :: string list) \<and>
   (case BoltKeyspace_List [''b'', ''a''] \<lparr>entries = [], tx_log = []\<rparr> of
      ((err, keys', calls), db') \<Rightarrow>
        keys' = sort [''b'', ''a''] \<and> sorted keys' \<and> mset keys' = mset [''b'', ''a'']
        \<and> (keys' = [''b'', ''a'']) = sorted [''b'', ''a''])
   \<and> fst (snd (fst (BoltKeyspace_List [''b'', ''a''] \<lparr>entries = [], tx_log = []\<rparr>)))
       = [''a'', ''b'']"
proof -
  have h: "[''b'', ''a''] \<noteq> ([] :: string list)" by simp
  have s: "sort [''b'', ''a''] = [''a'', ''b'']" by simp
  note t = List_sorts_callers_keys [OF h, of "\<lparr>entries = [], tx_log = []\<rparr>"]
  have r: "fst (snd (fst (BoltKeyspace_List [''b'', ''a''] \<lparr>entries = [], tx_log = []\<rparr>)))
             = [''a'', ''b'']"
    using t s by (auto split: prod.splits)
  show ?thesis by (intro conjI h t r)
qed

theorem List_keeps_sorted_keys:
  "[''a''] \<noteq> ([] :: string list)
   \<and> fst (snd (fst (BoltKeyspace_List [''a''] example_db))) = [''a'']
   \<and> [''a'', ''b''] \<noteq> ([] :: string list)
   \<and> fst (snd (fst (BoltKeyspace_List [''a'', ''b''] example_db))) = [''a'', ''b'']"
  by (simp add: BoltKeyspace_List_def Let_def)

lemma well_formed_distinct: "well_formed b \<Longrightarrow> distinct (map fst b)"
  by (simp add: well_formed_def strict_sorted_iff)

lemma count_key_distinct:
  "distinct (map fst b) \<Longrightarrow>
   length (filter (\<lambda>c. fst c = k) b) = (if map_of b k \<noteq> None then 1 else 0)"
proof (induction b)
  case Nil
  then show ?case by simp
next
  case (Cons e b)
  obtain k' v where e: "e = (k', v)" by (cases e)
  show ?case
  proof (cases "k' = k")
    case True
    then have "k \<notin> fst ` set b" using Cons.prems e by auto
    then have "filter (\<lambda>c. fst c = k) b = []" by (auto simp: filter_empty_conv)
    then show ?thesis using True e by simp
  next
    case False
    then show ?thesis using Cons e by simp
  qed
qed

lemma filter_key_requested:
  "filter (\<lambda>c. fst c = k) (filter (\<lambda>e. string_of (fst e) \<in> S) b) =
     (if string_of k \<in> S then filter (\<lambda>c. fst c = k) b else [])"
  by (induction b) auto

lemma sorted_wrt_keys_filter:
  "sorted_wrt (<) (map fst b) \<Longrightarrow> sorted_wrt (<) (map fst (filter P b))"
  by (induction b) auto

text \<open>
  Claim C2. For every non-empty list of requested keys and every (well-formed) state of
  the keyspace, \<open>List\<close> returns no error and calls the callback exactly once for each
  requested key that is in the keyspace and never for another key, with the value stored
  under the key, in ascending key order; the calls do not depend on the order in which
  the keys were supplied, and a requested key that is absent gives no call.
\<close>

theorem List_calls_requested_present:
  assumes "keys \<noteq> []" and "well_formed (entries db)"
  shows "case BoltKeyspace_List keys db of
           ((err, keys', calls), db') \<Rightarrow>
             err = None
           \<and> (\<forall>s. length (filter (\<lambda>c. fst c = bytes_of s) calls) =
                    (if s \<in> set keys \<and> bucket_Get (bytes_of s) (entries db) \<noteq> None
                     then 1 else 0))
           \<and> (\<forall>c \<in> set calls. string_of (fst c) \<in> set keys
                    \<and> bucket_Get (fst c) (entries db) = Some (snd c))
           \<and> sorted_wrt (<) (map fst calls)
           \<and> (\<forall>keys2. mset keys2 = mset keys \<longrightarrow>
                    snd (snd (fst (BoltKeyspace_List keys2 db))) = calls)"
proof -
  let ?b = "entries db"
  let ?calls = "filter (\<lambda>e. string_of (fst e) \<in> set keys) ?b"
  have d: "distinct (map fst ?b)" by (rule well_formed_distinct [OF assms(2)])
  have once: "\<forall>s. length (filter (\<lambda>c. fst c = bytes_of s) ?calls) =
                (if s \<in> set keys \<and> bucket_Get (bytes_of s) ?b \<noteq> None then 1 else 0)"
  proof
    fix s
    have eq: "filter (\<lambda>c. fst c = bytes_of s) ?calls =
            (if s \<in> set keys then filter (\<lambda>c. fst c = bytes_of s) ?b else [])"
      using filter_key_requested [of "bytes_of s" "set keys" ?b]
      by (simp only: string_of_bytes_of)
    have cnt: "length (filter (\<lambda>c. fst c = bytes_of s) ?b) =
            (if map_of ?b (bytes_of s) \<noteq> None then 1 else 0)"
      by (rule count_key_distinct [OF d])
    show "length (filter (\<lambda>c. fst c = bytes_of s) ?calls) =
                (if s \<in> set keys \<and> bucket_Get (bytes_of s) ?b \<noteq> None then 1 else 0)"
    proof (cases "s \<in> set keys")
      case True
      then show ?thesis unfolding eq bucket_Get_def using cnt by simp
    next
      case False
      then show ?thesis unfolding eq by simp
    qed
  qed
  have vals: "\<forall>c \<in> set ?calls. string_of (fst c) \<in> set keys
                \<and> bucket_Get (fst c) ?b = Some (snd c)"
    using d by (auto simp: bucket_Get_def)
  have asc: "sorted_wrt (<) (map fst ?calls)"
    using assms(2) unfolding well_formed_def by (rule sorted_wrt_keys_filter)
  have perm: "\<forall>keys2. mset keys2 = mset keys \<longrightarrow>
                snd (snd (fst (BoltKeyspace_List keys2 db))) = ?calls"
  proof (intro allI impI)
    fix keys2 assume "mset keys2 = mset keys"
    then have s: "set keys2 = set keys" by (rule mset_eq_setD)
    then have k2: "keys2 \<noteq> []" using assms(1) by auto
    have "BoltKeyspace_List keys2 db =
            ((None, sort keys2, filter (\<lambda>e. string_of (fst e) \<in> set keys2) ?b),
             begin_tx ReadOnly db)"
      by (rule List_calls_filter [OF k2 assms(2)])
    then show "snd (snd (fst (BoltKeyspace_List keys2 db))) = ?calls"
      by (simp only: s fst_conv snd_conv)
  qed
  have r: "BoltKeyspace_List keys db = ((None, sort keys, ?calls), begin_tx ReadOnly db)"
    by (rule List_calls_filter [OF assms])
  show ?thesis
    unfolding r prod.case by (intro conjI refl once vals asc perm)
qed

lemma example_db_well_formed: "well_formed (entries example_db)"
  by (simp add: example_db_def well_formed_def bytes_of_def)

lemma List_example:
  "BoltKeyspace_List [''c'', ''zz'', ''a''] example_db =
     ((None, [''a'', ''c'', ''zz''], [(bytes_of ''a'', [1]), (bytes_of ''c'', [3])]),
      example_db\<lparr>tx_log := [ReadOnly]\<rparr>)"
  by (simp add: BoltKeyspace_List_def Let_def example_db_def
      cursor_Seek_def begin_tx_def string_of_bytes_of bytes_of_less_iff bytes_of_le_iff)


theorem List_calls_requested_present_witness:
  "[''c'', ''zz'', ''a''] \<noteq> ([] :: string list) \<and> well_formed (entries example_db) \<and>
   (case BoltKeyspace_List [''c'', ''zz'', ''a''] example_db of
      ((err, keys', calls), db') \<Rightarrow>
        err = None
      \<and> (\<forall>s. length (filter (\<lambda>c. fst c = bytes_of s) calls) =
               (if s \<in> set [''c'', ''zz'', ''a'']
                   \<and> bucket_Get (bytes_of s) (entries example_db) \<noteq> None
                then 1 else 0))
      \<and> (\<forall>c \<in> set calls. string_of (fst c) \<in> set [''c'', ''zz'', ''a'']
               \<and> bucket_Get (fst c) (entries example_db) = Some (snd c))
      \<and> sorted_wrt (<) (map fst calls)
      \<and> (\<forall>keys2. mset keys2 = mset [''c'', ''zz'', ''a''] \<longrightarrow>
               snd (snd (fst (BoltKeyspace_List keys2 example_db))) = calls))"
proof -
  have h1: "[''c'', ''zz'', ''a''] \<noteq> ([] :: string list)" by simp
  show ?thesis
    by (intro conjI h1 example_db_well_formed
        List_calls_requested_present [OF h1 example_db_well_formed])
qed

lemma alice_auth: "authenticate example_env alice ''p@ss''"
  by (simp add: authenticate_def example_env_def alice_def SecureCompare_def
      ConstantTimeEq_eq ConstantTimeCompare_eq bytes_of_def)

lemma alice_auth_wrong: "\<not> authenticate example_env alice ''wrong''"
  by (simp add: authenticate_def example_env_def alice_def SecureCompare_def
      ConstantTimeEq_eq ConstantTimeCompare_eq bytes_of_def)

section \<open>authenticate\<close>

text \<open>
  Claim C6. \<open>authenticate\<close> returns a boolean and never an error: when the stored
  \<open>SaltedPassword\<close> or the stored \<open>Salt\<close> of the record is not valid base64 (its decoding
  fails), \<open>authenticate\<close> returns false for every candidate password.
\<close>

theorem authenticate_false_on_malformed:
  assumes "base64_DecodeString X (SaltedPassword user) = Inl e
           \<or> base64_DecodeString X (Salt user) = Inl e"
  shows "authenticate X user password = False"
  using assms by (auto simp: authenticate_def split: sum.splits)

theorem authenticate_false_on_malformed_witness:
  "(base64_DecodeString example_env (SaltedPassword (alice\<lparr>SaltedPassword := ''!!''\<rparr>))
      = Inl CorruptInputError
    \<or> base64_DecodeString example_env (Salt (alice\<lparr>SaltedPassword := ''!!''\<rparr>))
      = Inl CorruptInputError)
   \<and> authenticate example_env (alice\<lparr>SaltedPassword := ''!!''\<rparr>) ''p@ss'' = False"
proof -
  have h: "base64_DecodeString example_env (SaltedPassword (alice\<lparr>SaltedPassword := ''!!''\<rparr>))
             = Inl CorruptInputError
           \<or> base64_DecodeString example_env (Salt (alice\<lparr>SaltedPassword := ''!!''\<rparr>))
             = Inl CorruptInputError"
    by (simp add: example_env_def)
  show ?thesis
    by (intro conjI h authenticate_false_on_malformed [OF h])
qed

text \<open>
  Claim C5. Round trip of salt generation and authentication: if \<open>GenerateSalt\<close> on the
  password \<open>p\<close> succeeds with \<open>(salt, hash)\<close> and the record stores the base64 encodings of
  the two (which decode back to them), then \<open>authenticate\<close> accepts \<open>p\<close>, and rejects every
  password \<open>q\<close> whose digest over \<open>salt || q\<close> differs from \<open>hash\<close>.
\<close>

theorem GenerateSalt_authenticate_roundtrip:
  assumes "GenerateSalt X (bytes_of p) rnd = (Inr (salt, hash), rnd')"
    and "base64_DecodeString X (base64_EncodeToString X salt) = Inr salt"
    and "base64_DecodeString X (base64_EncodeToString X hash) = Inr hash"
    and "Salt user = base64_EncodeToString X salt"
    and "SaltedPassword user = base64_EncodeToString X hash"
  shows "authenticate X user p
       \<and> (\<forall>q. sha256_Sum X (salt @ bytes_of q) \<noteq> hash \<longrightarrow> \<not> authenticate X user q)"
proof -
  have h: "hash = sha256_Sum X (salt @ bytes_of p)"
    using assms(1) by (auto simp: GenerateSalt_def split: prod.splits sum.splits)
  show ?thesis
    using assms(2-5) h
    by (simp add: authenticate_def SecureCompare_def ConstantTimeEq_eq ConstantTimeCompare_eq)
qed

lemma GenerateSalt_example:
  "GenerateSalt example_env (bytes_of ''pw'') rnd17 =
     (Inr (salt16, rev (salt16 @ bytes_of ''pw'')), [17])"
  by (simp add: GenerateSalt_def io_ReadFull_def SaltSize_def rnd17_def salt16_def
      example_env_def)

lemma char_of_unat_eq_iff: "(char_of (unat w) = c) = (w = (of_char c :: 8 word))"
  by (metis of_char_char_of_unat char_of_unat_of_char)

lemma example_env_roundtrip:
  "base64_DecodeString example_env (base64_EncodeToString example_env b) =
     (if 33 \<in> set b then Inl CorruptInputError else Inr b)"
proof -
  have "(CHR ''!'' \<in> set (string_of b)) = (\<exists>w\<in>set b. char_of (unat w) = CHR ''!'')"
    by (induction b) (auto simp: string_of_def)
  also have "\<dots> = (\<exists>w\<in>set b. w = of_char CHR ''!'')"
    by (simp only: char_of_unat_eq_iff)
  also have "\<dots> = (33 \<in> set b)"
    by simp
  finally show ?thesis by (simp add: example_env_def bytes_of_string_of)
qed

theorem GenerateSalt_authenticate_roundtrip_witness:
  "GenerateSalt example_env (bytes_of ''pw'') rnd17 =
     (Inr (salt16, rev (salt16 @ bytes_of ''pw'')), [17])
   \<and> base64_DecodeString example_env (base64_EncodeToString example_env salt16) = Inr salt16
   \<and> base64_DecodeString example_env
        (base64_EncodeToString example_env (rev (salt16 @ bytes_of ''pw'')))
       = Inr (rev (salt16 @ bytes_of ''pw''))
   \<and> Salt bob = base64_EncodeToString example_env salt16
   \<and> SaltedPassword bob = base64_EncodeToString example_env (rev (salt16 @ bytes_of ''pw''))
   \<and> authenticate example_env bob ''pw''
   \<and> sha256_Sum example_env (salt16 @ bytes_of ''pW'') \<noteq> rev (salt16 @ bytes_of ''pw'')
   \<and> \<not> authenticate example_env bob ''pW''"
proof -
  have h2: "base64_DecodeString example_env (base64_EncodeToString example_env salt16)
              = Inr salt16"
    by (simp add: example_env_roundtrip salt16_def)
  have h3: "base64_DecodeString example_env
              (base64_EncodeToString example_env (rev (salt16 @ bytes_of ''pw'')))
            = Inr (rev (salt16 @ bytes_of ''pw''))"
    by (simp add: example_env_roundtrip salt16_def bytes_of_def)
  have h4: "Salt bob = base64_EncodeToString example_env salt16"
    by (simp add: bob_def)
  have h5: "SaltedPassword bob
              = base64_EncodeToString example_env (rev (salt16 @ bytes_of ''pw''))"
    by (simp add: bob_def)
  have h6: "sha256_Sum example_env (salt16 @ bytes_of ''pW'') \<noteq> rev (salt16 @ bytes_of ''pw'')"
    by (simp add: example_env_def bytes_of_def)
  note t = GenerateSalt_authenticate_roundtrip [OF GenerateSalt_example h2 h3 h4 h5]
  from t have a: "authenticate example_env bob ''pw''" by (rule conjunct1)
  from t h6 have b: "\<not> authenticate example_env bob ''pW''" by blast
  show ?thesis
    by (intro conjI GenerateSalt_example h2 h3 h4 h5 a h6 b)
qed

section \<open>The default account\<close>











section \<open>The cookie key\<close>





section \<open>Login\<close>

text \<open>
  Claim C10. \<open>setSession\<close> sets the cookie \<open>part-of-the-club\<close> with the value \<open>true\<close>, not
  HTTP-only, on every run and as the last cookie: the cookies of the response it returns
  are those it was given, then the session cookie if the encoding succeeded, then the
  indicator. When the encoding fails the indicator is the only cookie added, and a
  \<open>Login\<close> that reaches \<open>setSession\<close> still answers with the redirect 302 to \<open>/\<close>, its
  response carrying the indicator and no session cookie.
\<close>

theorem setSession_indicator_without_session:
  "set_cookies (setSession X now user sc response) =
     set_cookies response @
       (case securecookie_Encode X sc ''session'' (Username user, RequestId user) of
          Inr encoded \<Rightarrow>
            [\<lparr>Name = ''session'', Value = encoded, Path = ''/'', HttpOnly = True,
              MaxAge = 0, Expires = Some (time_AddDate X now 0 1 0)\<rparr>]
        | Inl err \<Rightarrow> []) @
       [\<lparr>Name = ''part-of-the-club'', Value = ''true'', Path = ''/'', HttpOnly = False,
         MaxAge = 0, Expires = None\<rparr>]
   \<and> last (set_cookies (setSession X now user sc response)) =
       \<lparr>Name = ''part-of-the-club'', Value = ''true'', Path = ''/'', HttpOnly = False,
        MaxAge = 0, Expires = None\<rparr>
   \<and> (securecookie_Encode X sc ''session'' (Username user, RequestId user) = Inl e \<longrightarrow>
        set_cookies (setSession X now user sc response) =
          set_cookies response @
            [\<lparr>Name = ''part-of-the-club'', Value = ''true'', Path = ''/'', HttpOnly = False,
              MaxAge = 0, Expires = None\<rparr>])
   \<and> (username \<noteq> '''' \<and> password \<noteq> ''''
        \<and> BoltKeyspace_Get username users = ((Some bs, None), users1)
        \<and> json_Unmarshal X bs = Inr user
        \<and> authenticate X user password
        \<and> getSecureCookie X user users1 rnd = (Inr sc, users2, rnd2)
        \<and> securecookie_Encode X sc ''session'' (Username user, RequestId user) = Inl e \<longrightarrow>
        Login X now username password users rnd =
          (\<lparr>set_cookies =
              [\<lparr>Name = ''part-of-the-club'', Value = ''true'', Path = ''/'',
                HttpOnly = False, MaxAge = 0, Expires = None\<rparr>],
            status = 302, body = [], location = ''/''\<rparr>, users2, rnd2))"
proof -
  have a: "set_cookies (setSession X now user sc response) =
     set_cookies response @
       (case securecookie_Encode X sc ''session'' (Username user, RequestId user) of
          Inr encoded \<Rightarrow>
            [\<lparr>Name = ''session'', Value = encoded, Path = ''/'', HttpOnly = True,
              MaxAge = 0, Expires = Some (time_AddDate X now 0 1 0)\<rparr>]
        | Inl err \<Rightarrow> []) @
       [\<lparr>Name = ''part-of-the-club'', Value = ''true'', Path = ''/'', HttpOnly = False,
         MaxAge = 0, Expires = None\<rparr>]"
    by (simp add: setSession_def SetCookie_def Let_def split: sum.splits)
  have b: "last (set_cookies (setSession X now user sc response)) =
       \<lparr>Name = ''part-of-the-club'', Value = ''true'', Path = ''/'', HttpOnly = False,
        MaxAge = 0, Expires = None\<rparr>"
    unfolding a by simp
  have c: "securecookie_Encode X sc ''session'' (Username user, RequestId user) = Inl e \<longrightarrow>
        set_cookies (setSession X now user sc response) =
          set_cookies response @
            [\<lparr>Name = ''part-of-the-club'', Value = ''true'', Path = ''/'', HttpOnly = False,
              MaxAge = 0, Expires = None\<rparr>]"
    unfolding a by simp
  have d: "username \<noteq> '''' \<and> password \<noteq> ''''
        \<and> BoltKeyspace_Get username users = ((Some bs, None), users1)
        \<and> json_Unmarshal X bs = Inr user
        \<and> authenticate X user password
        \<and> getSecureCookie X user users1 rnd = (Inr sc, users2, rnd2)
        \<and> securecookie_Encode X sc ''session'' (Username user, RequestId user) = Inl e \<longrightarrow>
        Login X now username password users rnd =
          (\<lparr>set_cookies =
              [\<lparr>Name = ''part-of-the-club'', Value = ''true'', Path = ''/'',
                HttpOnly = False, MaxAge = 0, Expires = None\<rparr>],
            status = 302, body = [], location = ''/''\<rparr>, users2, rnd2)"
  proof
    assume h: "username \<noteq> '''' \<and> password \<noteq> ''''
        \<and> BoltKeyspace_Get username users = ((Some bs, None), users1)
        \<and> json_Unmarshal X bs = Inr user
        \<and> authenticate X user password
        \<and> getSecureCookie X user users1 rnd = (Inr sc, users2, rnd2)
        \<and> securecookie_Encode X sc ''session'' (Username user, RequestId user) = Inl e"
    have l: "Login X now username password users rnd =
           (ctx_Redirect 302 ''/'' (setSession X now user sc new_response), users2, rnd2)"
      using h by (simp add: Login_def)
    have s: "setSession X now user sc new_response =
           new_response\<lparr>set_cookies :=
             [\<lparr>Name = ''part-of-the-club'', Value = ''true'', Path = ''/'', HttpOnly = False,
               MaxAge = 0, Expires = None\<rparr>]\<rparr>"
      using h by (simp add: setSession_def SetCookie_def Let_def new_response_def)
    show "Login X now username password users rnd =
          (\<lparr>set_cookies =
              [\<lparr>Name = ''part-of-the-club'', Value = ''true'', Path = ''/'',
                HttpOnly = False, MaxAge = 0, Expires = None\<rparr>],
            status = 302, body = [], location = ''/''\<rparr>, users2, rnd2)"
      unfolding l s by (simp add: ctx_Redirect_def new_response_def)
  qed
  show ?thesis by (intro conjI a b c d)
qed

theorem setSession_indicator_without_session_witness:
  "''alice'' \<noteq> '''' \<and> ''p@ss'' \<noteq> ''''
   \<and> BoltKeyspace_Get ''alice'' users_db =
       ((Some (bytes_of ''alice:abc''), None), users_db\<lparr>tx_log := [ReadOnly]\<rparr>)
   \<and> json_Unmarshal example_env (bytes_of ''alice:abc'') = Inr alice
   \<and> authenticate example_env alice ''p@ss''
   \<and> getSecureCookie example_env alice (users_db\<lparr>tx_log := [ReadOnly]\<rparr>) [] =
       (Inr (securecookie_New (CookieHashKey example_env) (bytes_of ''abc'')),
        users_db\<lparr>tx_log := [ReadOnly]\<rparr>, [])
   \<and> securecookie_Encode example_env
        (securecookie_New (CookieHashKey example_env) (bytes_of ''abc'')) ''session''
        (Username alice, RequestId alice) = Inl EncodeError
   \<and> last (set_cookies (setSession example_env 0 alice
        (securecookie_New (CookieHashKey example_env) (bytes_of ''abc'')) new_response)) =
       \<lparr>Name = ''part-of-the-club'', Value = ''true'', Path = ''/'', HttpOnly = False,
        MaxAge = 0, Expires = None\<rparr>
   \<and> set_cookies (setSession example_env 0 alice
        (securecookie_New (CookieHashKey example_env) (bytes_of ''abc'')) new_response) =
       set_cookies new_response @
         [\<lparr>Name = ''part-of-the-club'', Value = ''true'', Path = ''/'', HttpOnly = False,
           MaxAge = 0, Expires = None\<rparr>]
   \<and> Login example_env 0 ''alice'' ''p@ss'' users_db [] =
       (\<lparr>set_cookies =
           [\<lparr>Name = ''part-of-the-club'', Value = ''true'', Path = ''/'',
             HttpOnly = False, MaxAge = 0, Expires = None\<rparr>],
         status = 302, body = [], location = ''/''\<rparr>, users_db\<lparr>tx_log := [ReadOnly]\<rparr>, [])"
proof -
  have h1: "''alice'' \<noteq> ''''" by simp
  have h2: "''p@ss'' \<noteq> ''''" by simp
  have h3: "BoltKeyspace_Get ''alice'' users_db =
       ((Some (bytes_of ''alice:abc''), None), users_db\<lparr>tx_log := [ReadOnly]\<rparr>)"
    by (simp add: BoltKeyspace_Get_def begin_tx_def bucket_Get_def users_db_def Let_def)
  have h4: "json_Unmarshal example_env (bytes_of ''alice:abc'') = Inr alice"
    by (simp add: example_env_def)
  have h6: "getSecureCookie example_env alice (users_db\<lparr>tx_log := [ReadOnly]\<rparr>) [] =
       (Inr (securecookie_New (CookieHashKey example_env) (bytes_of ''abc'')),
        users_db\<lparr>tx_log := [ReadOnly]\<rparr>, [])"
    by (simp add: getSecureCookie_def alice_def example_env_def)
  have h7: "securecookie_Encode example_env
        (securecookie_New (CookieHashKey example_env) (bytes_of ''abc'')) ''session''
        (Username alice, RequestId alice) = Inl EncodeError"
    by (simp add: example_env_def securecookie_New_def bytes_of_def)
  note t = setSession_indicator_without_session [of example_env 0 alice
      "securecookie_New (CookieHashKey example_env) (bytes_of ''abc'')" new_response
      EncodeError "''alice''" "''p@ss''" users_db "bytes_of ''alice:abc''"
      "users_db\<lparr>tx_log := [ReadOnly]\<rparr>" "[]" "users_db\<lparr>tx_log := [ReadOnly]\<rparr>" "[]"]
  note t2 = t [THEN conjunct2, THEN conjunct1]
  note t3 = t [THEN conjunct2, THEN conjunct2, THEN conjunct1, rule_format, OF h7]
  note t4 = t [THEN conjunct2, THEN conjunct2, THEN conjunct2, rule_format,
      OF conjI [OF h1 conjI [OF h2 conjI [OF h3 conjI [OF h4 conjI [OF alice_auth
        conjI [OF h6 h7]]]]]]]
  show ?thesis
    by (intro conjI h1 h2 h3 h4 alice_auth h6 h7 t2 t3 t4)
qed

text \<open>
  Claim C1 says that a login naming a user that is not in the keyspace is answered with
  401. \<open>Get\<close> reports a missing key as \<open>ErrKeyNotFound\<close>, so \<open>Login\<close> takes its first
  branch and answers 500 with the body \<open>Error retreiving user\<close>; the branch \<open>bytes == nil\<close>
  that answers 401 is never reached. A request with a non-empty username that is not in
  the keyspace is answered with 401 only when its password is empty, by the branch for
  an incomplete form, which does not look the user up.
\<close>

theorem Login_missing_user_is_500:
  assumes "username \<noteq> ''''"
    and "bucket_Get (bytes_of username) (entries users) = None"
  shows "Login X now username password users rnd =
           (if password = ''''
            then (\<lparr>set_cookies = [], status = 401, body = ''Invalid username or password'',
                   location = []\<rparr>, users, rnd)
            else (\<lparr>set_cookies = [], status = 500, body = ''Error retreiving user'',
                   location = []\<rparr>, users\<lparr>tx_log := tx_log users @ [ReadOnly]\<rparr>, rnd))"
  using assms
  by (simp add: Login_def BoltKeyspace_Get_def begin_tx_def ctx_String_def new_response_def
      Let_def)

theorem Login_missing_user_is_500_witness:
  "''nobody'' \<noteq> ''''
   \<and> bucket_Get (bytes_of ''nobody'') (entries example_db) = None
   \<and> Login example_env 0 ''nobody'' ''x'' example_db [] =
       (\<lparr>set_cookies = [], status = 500, body = ''Error retreiving user'', location = []\<rparr>,
        example_db\<lparr>tx_log := [ReadOnly]\<rparr>, [])
   \<and> status (fst (Login example_env 0 ''nobody'' ''x'' example_db [])) \<noteq> 401"
proof -
  have h1: "''nobody'' \<noteq> ''''" by simp
  have h2: "bucket_Get (bytes_of ''nobody'') (entries example_db) = None"
    by (simp add: bucket_Get_def example_db_def bytes_of_def)
  note t = Login_missing_user_is_500 [OF h1 h2, of example_env 0 "''x''" "[]"]
  have l: "Login example_env 0 ''nobody'' ''x'' example_db [] =
       (\<lparr>set_cookies = [], status = 500, body = ''Error retreiving user'', location = []\<rparr>,
        example_db\<lparr>tx_log := [ReadOnly]\<rparr>, [])"
    using t by (simp add: example_db_def)
  have s: "status (fst (Login example_env 0 ''nobody'' ''x'' example_db [])) \<noteq> 401"
    unfolding l by simp
  show ?thesis by (intro conjI h1 h2 l s)
qed

end
